theory Spec2Isabelle
  imports Complex_Main "HOL-Library.AList"
begin

section \<open>JSON values and the Python operations the extractor applies to them\<close>

text \<open>
  The payloads are whatever \<^verbatim>\<open>response.json()\<close> returns: \<^verbatim>\<open>None\<close>, a bool, a number,
  a string, a list or a dict with string keys. A dict is an association list read with
  \<open>map_of\<close>.
\<close>

datatype json =
    JNull
  | JBool bool
  | JNum real
  | JStr string
  | JArr "json list"
  | JObj "(string \<times> json) list"

datatype error = TypeError | KeyError

text \<open>Python truthiness, as tested by \<^verbatim>\<open>and data\<close> and \<^verbatim>\<open>if structured['checkpoints']\<close>.\<close>

fun truthy :: "json \<Rightarrow> bool" where
  "truthy JNull = False"
| "truthy (JBool b) = b"
| "truthy (JNum r) = (r \<noteq> 0)"
| "truthy (JStr s) = (s \<noteq> [])"
| "truthy (JArr xs) = (xs \<noteq> [])"
| "truthy (JObj kvs) = (kvs \<noteq> [])"

text \<open>\<^verbatim>\<open>isinstance(data, list)\<close>\<close>

fun is_list :: "json \<Rightarrow> bool" where
  "is_list (JArr xs) = True"
| "is_list _ = False"

text \<open>\<^verbatim>\<open>data if isinstance(data, list) else [data]\<close>\<close>

definition as_list :: "json \<Rightarrow> json" where
  "as_list data = (if is_list data then data else JArr [data])"

text \<open>\<^verbatim>\<open>k in s\<close> for two strings: \<open>k\<close> occurs in \<open>s\<close> as a contiguous substring.\<close>

fun is_prefix :: "string \<Rightarrow> string \<Rightarrow> bool" where
  "is_prefix [] s = True"
| "is_prefix (c # cs) [] = False"
| "is_prefix (c # cs) (d # ds) = (c = d \<and> is_prefix cs ds)"

fun is_substring :: "string \<Rightarrow> string \<Rightarrow> bool" where
  "is_substring k [] = (k = [])"
| "is_substring k (c # cs) = (is_prefix k (c # cs) \<or> is_substring k cs)"

text \<open>
  \<^verbatim>\<open>k in v\<close> with a string \<open>k\<close> on the left: key membership on a dict, element
  membership on a list, substring on a string, and a \<^verbatim>\<open>TypeError\<close> on \<^verbatim>\<open>None\<close>, a bool
  or a number (not iterable).
\<close>

fun py_in :: "string \<Rightarrow> json \<Rightarrow> error + bool" where
  "py_in k (JObj kvs) = Inr (map_of kvs k \<noteq> None)"
| "py_in k (JArr xs) = Inr (JStr k \<in> set xs)"
| "py_in k (JStr s) = Inr (is_substring k s)"
| "py_in k JNull = Inl TypeError"
| "py_in k (JBool b) = Inl TypeError"
| "py_in k (JNum r) = Inl TypeError"

text \<open>
  \<^verbatim>\<open>v[k]\<close> with a string \<open>k\<close>: lookup on a dict (\<^verbatim>\<open>KeyError\<close> when absent), and a
  \<^verbatim>\<open>TypeError\<close> on everything else (list and string indices must be integers, the rest
  is not subscriptable).
\<close>

fun py_getitem :: "json \<Rightarrow> string \<Rightarrow> error + json" where
  "py_getitem (JObj kvs) k = (case map_of kvs k of Some v \<Rightarrow> Inr v | None \<Rightarrow> Inl KeyError)"
| "py_getitem (JArr xs) k = Inl TypeError"
| "py_getitem (JStr s) k = Inl TypeError"
| "py_getitem JNull k = Inl TypeError"
| "py_getitem (JBool b) k = Inl TypeError"
| "py_getitem (JNum r) k = Inl TypeError"

text \<open>
  \<^verbatim>\<open>len(v)\<close>: the number of elements of a list, of keys of a dict, of characters of a
  string, and a \<^verbatim>\<open>TypeError\<close> on \<^verbatim>\<open>None\<close>, a bool or a number.
\<close>

fun py_len :: "json \<Rightarrow> error + nat" where
  "py_len (JArr xs) = Inr (length xs)"
| "py_len (JObj kvs) = Inr (length (remdups (map fst kvs)))"
| "py_len (JStr s) = Inr (length s)"
| "py_len JNull = Inl TypeError"
| "py_len (JBool b) = Inl TypeError"
| "py_len (JNum r) = Inl TypeError"

text \<open>Sequencing of operations that may raise: the first exception ends the computation.\<close>

definition ebind :: "error + 'a \<Rightarrow> ('a \<Rightarrow> error + 'b) \<Rightarrow> error + 'b" where
  "ebind m f = (case m of Inl e \<Rightarrow> Inl e | Inr a \<Rightarrow> f a)"

text \<open>\<^verbatim>\<open>str(n)\<close> for the integer identifiers that are formatted into paths and file names.\<close>

function str_nat :: "nat \<Rightarrow> string" where
  "str_nat n = (if n < 10 then [''0123456789'' ! n]
                else str_nat (n div 10) @ [''0123456789'' ! (n mod 10)])"
  by pat_completeness auto
termination
  by (relation "measure (\<lambda>n. n)") auto

declare str_nat.simps [simp del]

definition str_int :: "int \<Rightarrow> string" where
  "str_int i = (if i < 0 then CHR ''-'' # str_nat (nat (- i)) else str_nat (nat i))"

text \<open>
  \<^verbatim>\<open>s.replace(old, new)\<close>: every non-overlapping occurrence of \<open>old\<close>, left to right. With an
  empty \<open>old\<close> Python inserts \<open>new\<close> before every character and at the end.
\<close>

function replace_str :: "string \<Rightarrow> string \<Rightarrow> string \<Rightarrow> string" where
  "replace_str old new [] = (if old = [] then new else [])"
| "replace_str old new (c # cs) =
     (if old = [] then new @ c # replace_str old new cs
      else if is_prefix old (c # cs) then new @ replace_str old new (drop (length old) (c # cs))
      else c # replace_str old new cs)"
  by pat_completeness auto
termination
  by (relation "measure (\<lambda>(old, new, s). length s)") auto

section \<open>The extractor object\<close>

record config =
  base_url :: string
  ui_url :: string
  token :: string
  execution_id :: int
  journey_id :: int
  project_id :: int
  org_id :: int

record endpoint =
  path :: string
  name :: string
  description :: string

text \<open>The dict built by \<^verbatim>\<open>structure_data\<close>; the GraphQL branch may store any JSON value
  under \<^verbatim>\<open>'checkpoints'\<close>.\<close>

record structured =
  executionId :: int
  journeyId :: int
  projectId :: int
  checkpoints :: json

text \<open>\<^verbatim>\<open>self.results\<close>. \<^verbatim>\<open>extracted_data\<close> is a dict in insertion order.\<close>

record results =
  timestamp :: string
  results_config :: config
  successful_endpoints :: "string list"
  failed_endpoints :: "endpoint list"
  extracted_data :: "(string \<times> json) list"
  structured_data :: "structured option"

text \<open>
  What the transport is asked and what it answers. A response carries its status code and
  its body as parsed by \<^verbatim>\<open>response.json()\<close>: \<open>None\<close> when the body is not valid JSON and
  the call raises. The three other replies are the exceptions \<^verbatim>\<open>session.get\<close> and
  \<^verbatim>\<open>session.post\<close> can raise.
\<close>

datatype url = UrlJoin string string | Url string

datatype request =
    Get url "(string \<times> string) list" nat
  | Post url "(string \<times> string) list" json nat

datatype reply =
    Response int "json option"
  | Timeout
  | ConnectionError
  | OtherException

fun request_headers :: "request \<Rightarrow> (string \<times> string) list" where
  "request_headers (Get u h t) = h"
| "request_headers (Post u h b t) = h"

text \<open>
  Everything the extractor does to the outside world, most recent first: a request with the
  reply it got, a \<^verbatim>\<open>time.sleep\<close>, and the assignment to a header of the shared session.
\<close>

datatype event =
    Exchange request reply
  | Sleep nat
  | SetHeader string string

text \<open>The outside world answers a request knowing everything that happened before it.\<close>

type_synonym world = "event list \<Rightarrow> request \<Rightarrow> reply"

record extractor =
  config :: config
  session_headers :: "(string \<times> string) list"
  results :: results
  endpoints :: "endpoint list"
  log :: "event list"

section \<open>Construction: configuration, session headers, empty results, endpoint catalog\<close>

definition default_config :: config where
  "default_config =
     \<lparr> base_url = ''https://api-app2.virtuoso.qa/api'',
       ui_url = ''https://app2.virtuoso.qa'',
       token = ''9e141010-eca5-43f5-afb9-20dc6c49833f'',
       execution_id = 88715,
       journey_id = 527218,
       project_id = 4889,
       org_id = 1964 \<rparr>"

text \<open>The headers the constructor puts on the shared session.\<close>

definition initial_headers :: "config \<Rightarrow> (string \<times> string) list" where
  "initial_headers c =
     [ (''Authorization'', ''Bearer '' @ token c),
       (''Accept'', ''application/json''),
       (''Content-Type'', ''application/json''),
       (''X-Organization-Id'', str_int (org_id c)),
       (''User-Agent'', ''Virtuoso-Comprehensive-Extractor/2.0'') ]"

definition mk_endpoint :: "string \<Rightarrow> string \<Rightarrow> string \<Rightarrow> endpoint" where
  "mk_endpoint p n d = \<lparr> path = p, name = n, description = d \<rparr>"

text \<open>\<^verbatim>\<open>self.endpoints\<close>, in the order of the source.\<close>

definition catalog :: "config \<Rightarrow> endpoint list" where
  "catalog c =
    (let e = str_int (execution_id c); j = str_int (journey_id c);
         p = str_int (project_id c); g = str_int (org_id c) in
     [ mk_endpoint (''/executions/'' @ e) ''execution'' ''Main execution data'',
       mk_endpoint (''/executions/'' @ e @ ''/journeys/'' @ j) ''execution_journey''
         ''Execution journey combination'',
       mk_endpoint (''/projects/'' @ p @ ''/executions/'' @ e) ''project_execution''
         ''Project-scoped execution'',
       mk_endpoint (''/projects/'' @ p @ ''/testsuites/'' @ j) ''testsuite''
         ''Journey as TestSuite'',
       mk_endpoint (''/testsuites/'' @ j) ''testsuite_direct'' ''Direct TestSuite access'',
       mk_endpoint (''/executions/'' @ e @ ''/checkpoints'') ''checkpoints''
         ''Execution checkpoints'',
       mk_endpoint (''/executions/'' @ e @ ''/steps'') ''steps'' ''Execution steps'',
       mk_endpoint (''/projects/'' @ p @ ''/testsuites/'' @ j @ ''/steps'') ''journey_steps''
         ''Journey/TestSuite steps'',
       mk_endpoint (''/executions/'' @ e @ ''/actions'') ''actions'' ''Execution actions'',
       mk_endpoint (''/executions/'' @ e @ ''/screenshots'') ''screenshots''
         ''Execution screenshots'',
       mk_endpoint (''/executions/'' @ e @ ''/logs'') ''logs'' ''Execution logs'',
       mk_endpoint (''/executions/'' @ e @ ''/results'') ''results'' ''Execution results'',
       mk_endpoint (''/executions/'' @ e @ ''/reports'') ''reports'' ''Execution reports'',
       mk_endpoint (''/projects/'' @ p @ ''/testdata/'' @ j) ''testdata'' ''Journey test data'',
       mk_endpoint (''/journeys/'' @ j @ ''/metadata'') ''metadata'' ''Journey metadata'',
       mk_endpoint (''/organizations/'' @ g @ ''/projects/'' @ p @ ''/executions/'' @ e)
         ''org_execution'' ''Organization-scoped execution'',
       mk_endpoint (''/v2/executions/'' @ e) ''v2_execution'' ''V2 API execution'',
       mk_endpoint (''/runs/'' @ e) ''run'' ''Execution as run'',
       mk_endpoint (''/test-runs/'' @ e) ''test_run'' ''Execution as test-run'' ])"

text \<open>
  \<^verbatim>\<open>__init__\<close>. The argument is the value of \<^verbatim>\<open>datetime.utcnow().isoformat()\<close>.
  \<^verbatim>\<open>results['config']\<close> is the configuration dict itself.
\<close>

definition extractor_init :: "string \<Rightarrow> extractor" where
  "extractor_init utcnow =
     \<lparr> config = default_config,
       session_headers = initial_headers default_config,
       results = \<lparr> timestamp = utcnow,
                   results_config = default_config,
                   successful_endpoints = [],
                   failed_endpoints = [],
                   extracted_data = [],
                   structured_data = None \<rparr>,
       endpoints = catalog default_config,
       log = [] \<rparr>"

section \<open>make\_request\<close>

text \<open>
  How one iteration of a loop ends: the function returns a value, or the loop goes on to
  its next iteration.
\<close>

datatype 'a flow = Return 'a | Next

text \<open>
  The body of \<^verbatim>\<open>for attempt in range(retry_count)\<close>. \<open>u\<close> is the target computed before
  the loop. Every way out of the \<^verbatim>\<open>try\<close> block is a branch:
  \<^item> status 200: \<^verbatim>\<open>response.json()\<close> either returns and the function returns the data, or
    raises and \<^verbatim>\<open>except Exception\<close> ends the iteration;
  \<^item> status 401 on attempt 0: the header is set and \<^verbatim>\<open>continue\<close> ends the iteration;
  \<^item> any other status: the iteration reaches the \<^verbatim>\<open>time.sleep(1)\<close> guarded by
    \<^verbatim>\<open>attempt < retry_count - 1\<close>;
  \<^item> an exception of \<^verbatim>\<open>session.get\<close>: the handler prints and the iteration ends.
  Console output is not modelled.
\<close>

definition attempt_body ::
  "world \<Rightarrow> endpoint \<Rightarrow> url \<Rightarrow> nat \<Rightarrow> nat \<Rightarrow> extractor \<Rightarrow> json flow \<times> extractor" where
  "attempt_body w ep u retry_count attempt x =
     (let req = Get u (session_headers x) 10;
          rep = w (log x) req;
          x1 = x\<lparr>log := Exchange req rep # log x\<rparr>
      in case rep of
           Response status body \<Rightarrow>
             if status = 200 then
               (case body of
                  Some data \<Rightarrow>
                    (Return data, x1\<lparr>results := (results x1)\<lparr>
                       successful_endpoints := successful_endpoints (results x1) @ [name ep],
                       extracted_data :=
                         AList.update (name ep) data (extracted_data (results x1))\<rparr>\<rparr>)
                | None \<Rightarrow> (Next, x1))
             else if status = 401 \<and> attempt = 0 then
               (Next, x1\<lparr>session_headers :=
                           AList.update ''X-Auth-Token'' (token (config x1)) (session_headers x1),
                         log := SetHeader ''X-Auth-Token'' (token (config x1)) # log x1\<rparr>)
             else
               (Next, if attempt < retry_count - 1 then x1\<lparr>log := Sleep 1 # log x1\<rparr> else x1)
         | Timeout \<Rightarrow> (Next, x1)
         | ConnectionError \<Rightarrow> (Next, x1)
         | OtherException \<Rightarrow> (Next, x1))"

text \<open>
  The loop, and the code after it when the range is exhausted: the descriptor is appended
  to \<^verbatim>\<open>failed_endpoints\<close> and \<^verbatim>\<open>None\<close> is returned.
\<close>

function make_request_loop ::
  "world \<Rightarrow> endpoint \<Rightarrow> url \<Rightarrow> nat \<Rightarrow> nat \<Rightarrow> extractor \<Rightarrow> json option \<times> extractor" where
  "make_request_loop w ep u retry_count attempt x =
     (if retry_count \<le> attempt then
        (None, x\<lparr>results := (results x)\<lparr>failed_endpoints :=
           failed_endpoints (results x) @
             [\<lparr> path = path ep, name = name ep, description = description ep \<rparr>]\<rparr>\<rparr>)
      else
        (case attempt_body w ep u retry_count attempt x of
           (Return data, x') \<Rightarrow> (Some data, x')
         | (Next, x') \<Rightarrow> make_request_loop w ep u retry_count (attempt + 1) x'))"
  by pat_completeness auto
termination
  by (relation "measure (\<lambda>(w, ep, u, retry_count, attempt, x). retry_count - attempt)") auto

declare make_request_loop.simps [simp del]

text \<open>
  \<^verbatim>\<open>urljoin\<close> is the standard library's; the target is kept as the pair it is applied to.
  A negative \<^verbatim>\<open>retry_count\<close> gives an empty range, like 0.
\<close>

definition make_request :: "world \<Rightarrow> endpoint \<Rightarrow> nat \<Rightarrow> extractor \<Rightarrow> json option \<times> extractor" where
  "make_request w ep retry_count x =
     make_request_loop w ep (UrlJoin (base_url (config x)) (path ep)) retry_count 0 x"

section \<open>try\_graphql and extract\_all\_data\<close>

definition graphql_query :: string where
  "graphql_query = concat (map (\<lambda>l. l @ [CHR 0x0A])
     [ [],
       ''        query GetExecutionData($executionId: ID!, $journeyId: ID!) {'',
       ''            execution(id: $executionId) {'',
       ''                id'',
       ''                status'',
       ''                startTime'',
       ''                endTime'',
       ''                journey(id: $journeyId) {'',
       ''                    id'',
       ''                    name'',
       ''                    checkpoints {'',
       ''                        id'',
       ''                        name'',
       ''                        steps {'',
       ''                            id'',
       ''                            action'',
       ''                            selector'',
       ''                            value'',
       ''                            status'',
       ''                            duration'',
       ''                        }'',
       ''                    }'',
       ''                }'',
       ''            }'',
       ''        }'' ]) @ ''        ''"

definition graphql_request :: "extractor \<Rightarrow> request" where
  "graphql_request x =
     Post (Url (replace_str ''/api'' ''/graphql'' (base_url (config x))))
          (session_headers x)
          (JObj [ (''query'', JStr graphql_query),
                  (''variables'',
                     JObj [ (''executionId'', JNum (of_int (execution_id (config x)))),
                            (''journeyId'', JNum (of_int (journey_id (config x)))) ]) ])
          10"

text \<open>
  The single \<^verbatim>\<open>session.post\<close>. On status 200 the body is parsed first; if that raises, the
  handler \<^verbatim>\<open>except Exception\<close> catches it and nothing is stored.
\<close>

definition try_graphql :: "world \<Rightarrow> extractor \<Rightarrow> extractor" where
  "try_graphql w x =
     (let req = graphql_request x;
          rep = w (log x) req;
          x1 = x\<lparr>log := Exchange req rep # log x\<rparr>
      in case rep of
           Response status body \<Rightarrow>
             if status = 200 then
               (case body of
                  Some data \<Rightarrow>
                    x1\<lparr>results := (results x1)\<lparr>
                         extracted_data :=
                           AList.update ''graphql'' data (extracted_data (results x1)),
                         successful_endpoints :=
                           successful_endpoints (results x1) @ [''graphql'']\<rparr>\<rparr>
                | None \<Rightarrow> x1)
             else x1
         | Timeout \<Rightarrow> x1
         | ConnectionError \<Rightarrow> x1
         | OtherException \<Rightarrow> x1)"

text \<open>The loop \<^verbatim>\<open>for endpoint in self.endpoints: self.make_request(endpoint)\<close>.\<close>

fun sweep :: "world \<Rightarrow> endpoint list \<Rightarrow> extractor \<Rightarrow> extractor" where
  "sweep w [] x = x"
| "sweep w (ep # eps) x = sweep w eps (snd (make_request w ep 3 x))"

definition extract_all_data :: "world \<Rightarrow> extractor \<Rightarrow> extractor" where
  "extract_all_data w x =
     (let x1 = sweep w (endpoints x) x in
      if length (successful_endpoints (results x1)) < 3 then try_graphql w x1 else x1)"

section \<open>structure\_data\<close>

definition data_sources :: "string list" where
  "data_sources =
     [''checkpoints'', ''steps'', ''journey_steps'', ''testsuite'', ''execution_journey'',
      ''graphql'']"

text \<open>
  The body of the \<^verbatim>\<open>graphql\<close> branch: \<open>Inr (Some c)\<close> when the assignment to
  \<^verbatim>\<open>structured['checkpoints']\<close> and the \<^verbatim>\<open>break\<close> are reached, \<open>Inr None\<close> when one of the
  two conditions is false, \<open>Inl e\<close> when an operation raises. \<^verbatim>\<open>and\<close> evaluates its right
  operand only when the left one is true.
\<close>

definition graphql_checkpoints :: "json \<Rightarrow> error + json option" where
  "graphql_checkpoints data =
     ebind (py_in ''data'' data) (\<lambda>has_data.
     ebind (if has_data
            then ebind (py_getitem data ''data'') (\<lambda>d. py_in ''execution'' d)
            else Inr False) (\<lambda>has_execution.
     if has_execution then
       ebind (py_getitem data ''data'') (\<lambda>d.
       ebind (py_getitem d ''execution'') (\<lambda>exec_data.
       ebind (py_in ''journey'' exec_data) (\<lambda>has_journey.
       ebind (if has_journey
              then ebind (py_getitem exec_data ''journey'') (\<lambda>j. py_in ''checkpoints'' j)
              else Inr False) (\<lambda>has_checkpoints.
       if has_checkpoints then
         ebind (py_getitem exec_data ''journey'') (\<lambda>j.
         ebind (py_getitem j ''checkpoints'') (\<lambda>c. Inr (Some c)))
       else Inr None))))
     else Inr None))"

text \<open>
  The loop over the priority list. The third argument is the current value of
  \<^verbatim>\<open>structured['checkpoints']\<close>; a \<^verbatim>\<open>break\<close> returns at once.
\<close>

fun structure_loop :: "string list \<Rightarrow> (string \<times> json) list \<Rightarrow> json \<Rightarrow> error + json" where
  "structure_loop [] ed cps = Inr cps"
| "structure_loop (source # rest) ed cps =
     (case map_of ed source of
        None \<Rightarrow> structure_loop rest ed cps
      | Some data \<Rightarrow>
          if source = ''checkpoints'' \<and> truthy data then Inr (as_list data)
          else if source = ''steps'' \<and> truthy data then
            Inr (JArr [JObj [(''name'', JStr ''Execution Steps''), (''steps'', as_list data)]])
          else if source = ''graphql'' \<and> truthy data then
            (case graphql_checkpoints data of
               Inl e \<Rightarrow> Inl e
             | Inr (Some c) \<Rightarrow> Inr c
             | Inr None \<Rightarrow> structure_loop rest ed cps)
          else structure_loop rest ed cps)"

text \<open>
  \<^verbatim>\<open>structure_data\<close> returns \<^verbatim>\<open>structured\<close>. When its checkpoints are truthy it stores it
  in the results and then prints \<^verbatim>\<open>len(structured['checkpoints'])\<close>, which raises when the
  GraphQL branch stored a bool or a number. An exception leaves the function without a
  result, and its caller \<^verbatim>\<open>main\<close> reads nothing of the extractor afterwards.
\<close>

definition structure_data :: "extractor \<Rightarrow> error + (structured \<times> extractor)" where
  "structure_data x =
     (case structure_loop data_sources (extracted_data (results x)) (JArr []) of
        Inl e \<Rightarrow> Inl e
      | Inr cps \<Rightarrow>
          (let s = \<lparr> executionId = execution_id (config x),
                     journeyId = journey_id (config x),
                     projectId = project_id (config x),
                     checkpoints = cps \<rparr>
           in if truthy cps then
                (let x' = x\<lparr>results := (results x)\<lparr>structured_data := Some s\<rparr>\<rparr>
                 in case py_len cps of
                      Inl e \<Rightarrow> Inl e
                    | Inr n \<Rightarrow> Inr (s, x'))
              else Inr (s, x)))"

section \<open>save\_results and main\<close>

text \<open>A file is its name and what \<^verbatim>\<open>json.dump\<close> was given.\<close>

datatype artifact = RawDump results | StructuredDump structured

text \<open>
  The second argument is \<^verbatim>\<open>datetime.now().strftime('%Y%m%d_%H%M%S')\<close>. The result is the
  returned file name and the files written, in order.
\<close>

definition save_results :: "extractor \<Rightarrow> string \<Rightarrow> string \<times> (string \<times> artifact) list" where
  "save_results x now =
     (let raw_filename =
            ''execution_'' @ str_int (execution_id (config x)) @ ''_raw_'' @ now @ ''.json'';
          raw = (raw_filename, RawDump (results x))
      in case structured_data (results x) of
           Some s \<Rightarrow>
             (let structured_filename =
                    ''execution_'' @ str_int (execution_id (config x)) @ ''_structured_'' @ now
                      @ ''.json''
              in (structured_filename, [raw, (structured_filename, StructuredDump s)]))
         | None \<Rightarrow> (raw_filename, [raw]))"

record outcome =
  exit_code :: int
  files :: "(string \<times> artifact) list"

text \<open>
  \<^verbatim>\<open>main\<close>: the exit code and the files written. \<^verbatim>\<open>generate_report\<close> only prints. An
  exception raised by \<^verbatim>\<open>structure_data\<close> reaches \<^verbatim>\<open>except Exception\<close>, which exits with 2
  before \<^verbatim>\<open>save_results\<close> is called.
\<close>

definition main :: "world \<Rightarrow> string \<Rightarrow> string \<Rightarrow> outcome" where
  "main w utcnow now =
     (let x = extractor_init utcnow;
          x1 = extract_all_data w x
      in case structure_data x1 of
           Inl e \<Rightarrow> \<lparr> exit_code = 2, files = [] \<rparr>
         | Inr (s, x2) \<Rightarrow>
             (let (filename, written) = save_results x2 now
              in \<lparr> exit_code = (if structured_data (results x2) \<noteq> None then 0 else 1),
                   files = written \<rparr>))"


section \<open>Vocabulary of the properties\<close>

text \<open>
  What \<^verbatim>\<open>structure_data\<close> returns, without the extractor: the normalised tree, or the
  exception.
\<close>

definition normalize :: "extractor \<Rightarrow> error + structured" where
  "normalize x = map_sum id fst (structure_data x)"

text \<open>The tree with no checkpoints, which is never stored in the results.\<close>

definition no_data :: "extractor \<Rightarrow> structured" where
  "no_data x = \<lparr> executionId = execution_id (config x), journeyId = journey_id (config x),
                 projectId = project_id (config x), checkpoints = JArr [] \<rparr>"

text \<open>The assignment \<^verbatim>\<open>self.results['extracted_data'][k] = v\<close>.\<close>

definition set_payload :: "string \<Rightarrow> json \<Rightarrow> extractor \<Rightarrow> extractor" where
  "set_payload k v x =
     x\<lparr>results := (results x)\<lparr>extracted_data := AList.update k v (extracted_data (results x))\<rparr>\<rparr>"

text \<open>
  A fresh extractor whose \<^verbatim>\<open>extracted_data\<close> holds the given payloads, in that order.
  \<^verbatim>\<open>structure_data\<close> reads the configuration and \<^verbatim>\<open>extracted_data\<close> only.
\<close>

definition loaded :: "(string \<times> json) list \<Rightarrow> extractor" where
  "loaded ed =
     (extractor_init [])\<lparr>results := (results (extractor_init []))\<lparr>
        successful_endpoints := map fst ed, extracted_data := ed\<rparr>\<rparr>"

text \<open>The two ways \<^verbatim>\<open>make_request\<close> changes the results.\<close>

definition failed_record :: "endpoint \<Rightarrow> endpoint" where
  "failed_record ep = \<lparr> path = path ep, name = name ep, description = description ep \<rparr>"

definition record_failure :: "endpoint \<Rightarrow> results \<Rightarrow> results" where
  "record_failure ep r = r\<lparr>failed_endpoints := failed_endpoints r @ [failed_record ep]\<rparr>"

definition record_success :: "string \<Rightarrow> json \<Rightarrow> results \<Rightarrow> results" where
  "record_success n d r =
     r\<lparr>successful_endpoints := successful_endpoints r @ [n],
       extracted_data := AList.update n d (extracted_data r)\<rparr>"


fun is_get :: "event \<Rightarrow> bool" where
  "is_get (Exchange (Get u h t) rep) = True"
| "is_get _ = False"

fun is_sleep :: "event \<Rightarrow> bool" where
  "is_sleep (Sleep n) = True"
| "is_sleep _ = False"

fun is_upgrade :: "event \<Rightarrow> bool" where
  "is_upgrade (SetHeader k v) = True"
| "is_upgrade _ = False"


definition gets :: "event list \<Rightarrow> nat" where
  "gets l = length (filter is_get l)"

definition sleeps :: "event list \<Rightarrow> nat" where
  "sleeps l = length (filter is_sleep l)"

definition upgrades :: "event list \<Rightarrow> nat" where
  "upgrades l = length (filter is_upgrade l)"

fun status_401 :: "reply \<Rightarrow> bool" where
  "status_401 (Response status body) = (status = 401)"
| "status_401 _ = False"

text \<open>
  The invariant of the result aggregate: every successful name has a payload, and the name
  of a failed descriptor is neither a successful name nor a key of the payloads.
\<close>

definition aggregate_inv :: "results \<Rightarrow> bool" where
  "aggregate_inv r \<longleftrightarrow>
     (\<forall>n \<in> set (successful_endpoints r). map_of (extracted_data r) n \<noteq> None) \<and>
     (\<forall>d \<in> set (failed_endpoints r).
        name d \<notin> set (successful_endpoints r) \<and> map_of (extracted_data r) (name d) = None)"

text \<open>
  The most recent header assignment in a log (most recent event first), and the property
  that every request sent after a header assignment carries the header with the value
  that was assigned last.
\<close>

fun last_set :: "event list \<Rightarrow> (string \<times> string) option" where
  "last_set [] = None"
| "last_set (SetHeader k v # older) = Some (k, v)"
| "last_set (Exchange req rep # older) = last_set older"
| "last_set (Sleep n # older) = last_set older"

fun carried :: "event list \<Rightarrow> bool" where
  "carried [] = True"
| "carried (Exchange req rep # older) =
     ((case last_set older of
         None \<Rightarrow> True
       | Some (k, v) \<Rightarrow> map_of (request_headers req) k = Some v) \<and> carried older)"
| "carried (SetHeader k v # older) = carried older"
| "carried (Sleep n # older) = carried older"

text \<open>A name that the results do not mention yet.\<close>

definition fresh :: "string \<Rightarrow> results \<Rightarrow> bool" where
  "fresh n r \<longleftrightarrow>
     n \<notin> set (successful_endpoints r) \<and> map_of (extracted_data r) n = None \<and>
     n \<notin> set (map name (failed_endpoints r))"

text \<open>
  The session agrees with its log: the requests sent so far carried the header that had
  been assigned, and the session still holds the last assignment.
\<close>

definition header_synced :: "extractor \<Rightarrow> bool" where
  "header_synced x \<longleftrightarrow>
     carried (log x) \<and>
     (case last_set (log x) of
        None \<Rightarrow> True
      | Some (k, v) \<Rightarrow> map_of (session_headers x) k = Some v)"

text \<open>
  The session headers after the header assignments of a log segment (most recent event
  first) have been applied to the headers \<open>h\<close>.
\<close>

fun headers_after :: "(string \<times> string) list \<Rightarrow> event list \<Rightarrow> (string \<times> string) list" where
  "headers_after h [] = h"
| "headers_after h (SetHeader k v # older) = AList.update k v (headers_after h older)"
| "headers_after h (Exchange req rep # older) = headers_after h older"
| "headers_after h (Sleep n # older) = headers_after h older"

text \<open>
  A log segment (most recent event first), added on top of the log \<open>base\<close> by a call that
  started with the session headers \<open>h\<close>, is a transcript of attempts on the target \<open>u\<close>:
  every exchange in it is a GET of \<open>u\<close> with timeout 10, sent with the session headers of
  that moment, and its reply is what the transport answers at that moment.
\<close>

fun transcript ::
  "world \<Rightarrow> url \<Rightarrow> (string \<times> string) list \<Rightarrow> event list \<Rightarrow> event list \<Rightarrow> bool" where
  "transcript w u h base [] = True"
| "transcript w u h base (Exchange req rep # older) =
     (req = Get u (headers_after h older) 10 \<and> rep = w (older @ base) req \<and>
      transcript w u h base older)"
| "transcript w u h base (Sleep n # older) = transcript w u h base older"
| "transcript w u h base (SetHeader k v # older) = transcript w u h base older"

section \<open>Concrete transports and inputs\<close>

text \<open>Every request times out.\<close>

definition world_timeout :: world where
  "world_timeout l r = Timeout"

text \<open>Every request is answered 404 with a body that is not JSON.\<close>

definition world_404 :: world where
  "world_404 l r = Response 404 None"

text \<open>Every request is answered 401 with a body that is not JSON.\<close>

definition world_401 :: world where
  "world_401 l r = Response 401 None"

text \<open>Every request is answered 200 with a body that is not JSON (an HTML page, say).\<close>

definition world_html :: world where
  "world_html l r = Response 200 None"

text \<open>Every request is answered 200 with the empty JSON object.\<close>

definition world_ok :: world where
  "world_ok l r = Response 200 (Some (JObj []))"

text \<open>
  Every REST endpoint is answered 404; the GraphQL endpoint answers 200 with
  \<^verbatim>\<open>{"data": {"execution": null}}\<close>, the GraphQL reply for an execution that does not
  resolve.
\<close>

definition null_execution :: json where
  "null_execution = JObj [(''data'', JObj [(''execution'', JNull)])]"

definition world_null :: world where
  "world_null l r =
     (case r of
        Get u h t \<Rightarrow> Response 404 None
      | Post u h b t \<Rightarrow> Response 200 (Some null_execution))"

text \<open>The first descriptor of the catalog, and the request \<^verbatim>\<open>make_request\<close> sends for it
  from a fresh extractor.\<close>

definition execution_endpoint :: endpoint where
  "execution_endpoint = mk_endpoint ''/executions/88715'' ''execution'' ''Main execution data''"

definition execution_get :: request where
  "execution_get =
     Get (UrlJoin ''https://api-app2.virtuoso.qa/api'' ''/executions/88715'')
         (initial_headers default_config) 10"


section \<open>Normalisation\<close>

lemma truthy_as_list: "truthy data \<Longrightarrow> truthy (as_list data)"
  by (cases data) (simp_all add: as_list_def)

lemma set_payload_simps [simp]:
  "config (set_payload k v x) = config x"
  "extracted_data (results (set_payload k v x)) = AList.update k v (extracted_data (results x))"
  by (simp_all add: set_payload_def)

lemma structure_loop_checkpoints:
  "map_of ed ''checkpoints'' = Some cp \<Longrightarrow> truthy cp \<Longrightarrow>
   structure_loop data_sources ed c = Inr (as_list cp)"
  by (simp add: data_sources_def)

text \<open>
  Claim C1. When both the \<^verbatim>\<open>checkpoints\<close> and the \<^verbatim>\<open>steps\<close> payloads are present and
  non-empty (truthy, which is what the code tests), the checkpoint list of the normalised
  tree is the \<^verbatim>\<open>checkpoints\<close> payload itself when it is a list and the one-element list
  holding it otherwise, and putting any other payload under \<^verbatim>\<open>steps\<close> leaves the result
  unchanged.
\<close>

theorem C1_checkpoints_before_steps:
  assumes "map_of (extracted_data (results x)) ''checkpoints'' = Some cp" and "truthy cp"
    and "map_of (extracted_data (results x)) ''steps'' = Some st" and "truthy st"
  shows "normalize x =
           Inr \<lparr> executionId = execution_id (config x), journeyId = journey_id (config x),
                 projectId = project_id (config x),
                 checkpoints = (if is_list cp then cp else JArr [cp]) \<rparr>
         \<and> (\<forall>st'. normalize (set_payload ''steps'' st' x) = normalize x)"
proof -
  have a: "structure_loop data_sources (extracted_data (results x)) (JArr []) = Inr (as_list cp)"
    using assms(1,2) by (rule structure_loop_checkpoints)
  have b: "structure_loop data_sources
             (AList.update ''steps'' st' (extracted_data (results x))) (JArr []) = Inr (as_list cp)"
    for st'
    using assms(1,2) by (intro structure_loop_checkpoints) (simp_all add: update_conv')
  show ?thesis
    using assms(2)
    by (cases cp) (simp_all add: normalize_def structure_data_def a b as_list_def Let_def)
qed

text \<open>
  Claim C1, witness: \<^verbatim>\<open>steps\<close> was stored first and \<^verbatim>\<open>checkpoints\<close> is a single
  object.
\<close>

theorem C1_witness:
  "normalize (loaded [(''steps'', JArr [JObj [(''id'', JNum 1)]]),
                      (''checkpoints'', JObj [(''name'', JStr ''CP1'')])])
     = Inr \<lparr> executionId = 88715, journeyId = 527218, projectId = 4889,
             checkpoints = JArr [JObj [(''name'', JStr ''CP1'')]] \<rparr>"
  using C1_checkpoints_before_steps
    [of "loaded [(''steps'', JArr [JObj [(''id'', JNum 1)]]),
                 (''checkpoints'', JObj [(''name'', JStr ''CP1'')])]"
        "JObj [(''name'', JStr ''CP1'')]" "JArr [JObj [(''id'', JNum 1)]]"]
  by (simp add: loaded_def extractor_init_def default_config_def)


lemma structure_loop_no_rule:
  "k \<noteq> ''checkpoints'' \<Longrightarrow> k \<noteq> ''steps'' \<Longrightarrow> k \<noteq> ''graphql'' \<Longrightarrow>
   structure_loop srcs (AList.update k v ed) c = structure_loop srcs ed c"
  by (induction srcs) (auto simp: update_conv' split: option.splits sum.splits)

lemma structure_loop_journey_steps:
  "structure_loop srcs (AList.update ''journey_steps'' v ed) c = structure_loop srcs ed c"
  by (rule structure_loop_no_rule) simp_all

text \<open>
  Claim C3, as amended. \<^verbatim>\<open>journey_steps\<close> is in the priority list but no branch of the
  loop handles it: storing any payload under it leaves the normalised tree unchanged, and
  when neither \<^verbatim>\<open>checkpoints\<close>, \<^verbatim>\<open>steps\<close> nor \<^verbatim>\<open>graphql\<close> is present the result is
  the tree with no checkpoints, and nothing is stored in the results.
\<close>

theorem C3_journey_steps_has_no_rule:
  "normalize (set_payload ''journey_steps'' v x) = normalize x
   \<and> (map_of (extracted_data (results x)) ''checkpoints'' = None
        \<and> map_of (extracted_data (results x)) ''steps'' = None
        \<and> map_of (extracted_data (results x)) ''graphql'' = None
      \<longrightarrow> structure_data (set_payload ''journey_steps'' v x)
            = Inr (no_data x, set_payload ''journey_steps'' v x))"
proof -
  have "structure_loop data_sources (extracted_data (results x)) (JArr []) = Inr (JArr [])"
    if "map_of (extracted_data (results x)) ''checkpoints'' = None"
       "map_of (extracted_data (results x)) ''steps'' = None"
       "map_of (extracted_data (results x)) ''graphql'' = None"
    using that by (simp add: data_sources_def split: option.splits)
  then show ?thesis
    by (simp add: normalize_def structure_data_def structure_loop_journey_steps no_data_def Let_def
        split: sum.splits)
qed

text \<open>
  Claim C3, witness: a non-empty \<^verbatim>\<open>journey_steps\<close> payload stored in a fresh extractor.
\<close>

theorem C3_witness:
  "structure_data (set_payload ''journey_steps'' (JArr [JObj [(''id'', JNum 1)]]) (loaded []))
     = Inr (no_data (loaded []),
            set_payload ''journey_steps'' (JArr [JObj [(''id'', JNum 1)]]) (loaded []))"
  using C3_journey_steps_has_no_rule [of "JArr [JObj [(''id'', JNum 1)]]" "loaded []"]
  by (simp add: loaded_def)

text \<open>
  Claim C3, counterexample to the claim as stated: with \<^verbatim>\<open>[{"id": 1}]\<close> as the only
  payload, stored under \<^verbatim>\<open>journey_steps\<close>, the checkpoint list is empty and the results
  are untouched, while the same payload under \<^verbatim>\<open>steps\<close> gives the one checkpoint named
  \<^verbatim>\<open>Execution Steps\<close>.
\<close>

theorem C3_counterexample:
  "structure_data (loaded [(''journey_steps'', JArr [JObj [(''id'', JNum 1)]])])
     = Inr (\<lparr> executionId = 88715, journeyId = 527218, projectId = 4889,
               checkpoints = JArr [] \<rparr>,
            loaded [(''journey_steps'', JArr [JObj [(''id'', JNum 1)]])])
   \<and> structure_data (loaded [(''steps'', JArr [JObj [(''id'', JNum 1)]])])
     = Inr (\<lparr> executionId = 88715, journeyId = 527218, projectId = 4889,
               checkpoints = JArr [JObj [(''name'', JStr ''Execution Steps''),
                                         (''steps'', JArr [JObj [(''id'', JNum 1)]])]] \<rparr>,
            (loaded [(''steps'', JArr [JObj [(''id'', JNum 1)]])])\<lparr>results :=
               (results (loaded [(''steps'', JArr [JObj [(''id'', JNum 1)]])]))\<lparr>structured_data :=
                  Some \<lparr> executionId = 88715, journeyId = 527218, projectId = 4889,
                         checkpoints = JArr [JObj [(''name'', JStr ''Execution Steps''),
                                         (''steps'', JArr [JObj [(''id'', JNum 1)]])]] \<rparr>\<rparr>\<rparr>)"
  by (simp add: structure_data_def data_sources_def loaded_def extractor_init_def
      default_config_def as_list_def Let_def)

text \<open>
  A GraphQL payload whose path stops at a missing key is skipped; one whose path stops at
  \<^verbatim>\<open>null\<close> raises.
\<close>

lemma graphql_missing_keys_skipped:
  "graphql_checkpoints (JObj []) = Inr None"
  "graphql_checkpoints (JObj [(''data'', JObj [])]) = Inr None"
  "graphql_checkpoints (JObj [(''data'', JObj [(''execution'', JObj [])])]) = Inr None"
  "graphql_checkpoints (JObj [(''data'', JObj [(''execution'', JObj [(''journey'', JObj [])])])])
     = Inr None"
  by (simp_all add: graphql_checkpoints_def ebind_def)

lemma graphql_null_faults:
  "graphql_checkpoints (JObj [(''data'', JNull)]) = Inl TypeError"
  "graphql_checkpoints (JObj [(''data'', JObj [(''execution'', JNull)])]) = Inl TypeError"
  "graphql_checkpoints (JObj [(''data'', JObj [(''execution'', JObj [(''journey'', JNull)])])])
     = Inl TypeError"
  by (simp_all add: graphql_checkpoints_def ebind_def)

text \<open>
  When the GraphQL path ends at a number, the tree is stored and the \<^verbatim>\<open>len\<close> of the
  message that follows raises.
\<close>

lemma structure_data_len_faults:
  "structure_data (loaded [(''graphql'',
      JObj [(''data'', JObj [(''execution'',
        JObj [(''journey'', JObj [(''checkpoints'', JNum 5)])])])])]) = Inl TypeError"
  by (simp add: structure_data_def data_sources_def loaded_def graphql_checkpoints_def ebind_def
      Let_def)

text \<open>
  Claim C8, as amended. A \<^verbatim>\<open>checkpoints\<close> payload that is not a list and is truthy
  (a non-empty object, for one) normalises to the one-element list holding it, and the
  tree is stored in the results.
\<close>

theorem C8_single_object_round_trip:
  assumes "map_of (extracted_data (results x)) ''checkpoints'' = Some cp"
    and "\<not> is_list cp" and "truthy cp"
  shows "structure_data x =
           Inr (\<lparr> executionId = execution_id (config x), journeyId = journey_id (config x),
                   projectId = project_id (config x), checkpoints = JArr [cp] \<rparr>,
                x\<lparr>results := (results x)\<lparr>structured_data :=
                   Some \<lparr> executionId = execution_id (config x),
                          journeyId = journey_id (config x),
                          projectId = project_id (config x), checkpoints = JArr [cp] \<rparr>\<rparr>\<rparr>)"
proof -
  have "structure_loop data_sources (extracted_data (results x)) (JArr []) = Inr (JArr [cp])"
    using structure_loop_checkpoints [OF assms(1,3)] assms(2) by (simp add: as_list_def)
  then show ?thesis
    by (simp add: structure_data_def Let_def)
qed

text \<open>
  Claim C8, witness: the single object \<^verbatim>\<open>{"name": "CP1"}\<close>.
\<close>

theorem C8_witness:
  "normalize (loaded [(''checkpoints'', JObj [(''name'', JStr ''CP1'')])])
     = Inr \<lparr> executionId = 88715, journeyId = 527218, projectId = 4889,
             checkpoints = JArr [JObj [(''name'', JStr ''CP1'')]] \<rparr>"
  using C8_single_object_round_trip
    [of "loaded [(''checkpoints'', JObj [(''name'', JStr ''CP1'')])]"
        "JObj [(''name'', JStr ''CP1'')]"]
  by (simp add: normalize_def loaded_def extractor_init_def default_config_def)

text \<open>
  Claim C8, counterexample to the claim as stated: the empty object \<^verbatim>\<open>{}\<close> is a single
  JSON object, but it is falsy, the guard \<^verbatim>\<open>and data\<close> skips it, and the checkpoint list
  is empty.
\<close>

theorem C8_counterexample:
  "structure_data (loaded [(''checkpoints'', JObj [])])
     = Inr (\<lparr> executionId = 88715, journeyId = 527218, projectId = 4889,
               checkpoints = JArr [] \<rparr>,
            loaded [(''checkpoints'', JObj [])])"
  by (simp add: structure_data_def data_sources_def loaded_def extractor_init_def
      default_config_def Let_def)


section \<open>The fetcher and the probe run\<close>


lemma attempt_body_Return:
  "fst (attempt_body w ep u n a x) = Return d \<longleftrightarrow>
     w (log x) (Get u (session_headers x) 10) = Response 200 (Some d)"
  by (simp add: attempt_body_def Let_def split: reply.splits option.splits)

lemma attempt_body_Return_state:
  "attempt_body w ep u n a x = (Return d, x') \<Longrightarrow>
     x' = x\<lparr>log := Exchange (Get u (session_headers x) 10) (Response 200 (Some d)) # log x,
            results := record_success (name ep) d (results x)\<rparr>"
  by (auto simp: attempt_body_def Let_def record_success_def split: reply.splits option.splits if_splits)

lemma attempt_body_Next:
  assumes "attempt_body w ep u n a x = (Next, x')"
  shows "results x' = results x" and "config x' = config x" and "endpoints x' = endpoints x"
  using assms
  by (auto simp: attempt_body_def Let_def split: reply.splits option.splits if_splits)

lemma loop_done:
  "n \<le> a \<Longrightarrow>
   make_request_loop w ep u n a x = (None, x\<lparr>results := record_failure ep (results x)\<rparr>)"
  by (simp add: make_request_loop.simps [of w ep u n a x] record_failure_def failed_record_def)

lemma loop_return:
  "a < n \<Longrightarrow> attempt_body w ep u n a x = (Return d, x') \<Longrightarrow>
   make_request_loop w ep u n a x = (Some d, x')"
  by (simp add: make_request_loop.simps [of w ep u n a x])

lemma loop_next:
  "a < n \<Longrightarrow> attempt_body w ep u n a x = (Next, x') \<Longrightarrow>
   make_request_loop w ep u n a x = make_request_loop w ep u n (Suc a) x'"
  by (simp add: make_request_loop.simps [of w ep u n a x])

lemma loop_induct [case_names Done Return Next]:
  assumes exhausted: "\<And>a x. n \<le> a \<Longrightarrow> P a x (None, x\<lparr>results := record_failure ep (results x)\<rparr>)"
    and returned: "\<And>a x d x'. a < n \<Longrightarrow> attempt_body w ep u n a x = (Return d, x') \<Longrightarrow>
                   P a x (Some d, x')"
    and continued: "\<And>a x x'. a < n \<Longrightarrow> attempt_body w ep u n a x = (Next, x') \<Longrightarrow>
                   P (Suc a) x' (make_request_loop w ep u n (Suc a) x') \<Longrightarrow>
                   P a x (make_request_loop w ep u n (Suc a) x')"
  shows "P a x (make_request_loop w ep u n a x)"
proof (induction "n - a" arbitrary: a x)
  case 0
  then show ?case by (simp add: loop_done exhausted)
next
  case (Suc k)
  then have lt: "a < n" by simp
  obtain f x' where b: "attempt_body w ep u n a x = (f, x')"
    by (cases "attempt_body w ep u n a x")
  show ?case
  proof (cases f)
    case (Return d)
    with lt b show ?thesis by (simp add: loop_return returned)
  next
    case Next
    from Suc(2) have "k = n - Suc a" by simp
    then have "P (Suc a) x' (make_request_loop w ep u n (Suc a) x')" by (rule Suc(1))
    with lt b Next show ?thesis by (simp add: loop_next continued)
  qed
qed

lemma make_request_loop_results:
  "results (snd (make_request_loop w ep u n a x)) =
     (case fst (make_request_loop w ep u n a x) of
        None \<Rightarrow> record_failure ep (results x)
      | Some d \<Rightarrow> record_success (name ep) d (results x))"
proof (induction a x rule: loop_induct [where w = w and ep = ep and u = u and n = n])
  case (Done a x)
  then show ?case by simp
next
  case (Return a x d x')
  from attempt_body_Return_state [OF Return(2)] show ?case by simp
next
  case (Next a x x')
  from Next(3) attempt_body_Next(1) [OF Next(2)] show ?case by (simp cong: option.case_cong)
qed

lemma make_request_loop_frame:
  "config (snd (make_request_loop w ep u n a x)) = config x \<and>
   endpoints (snd (make_request_loop w ep u n a x)) = endpoints x"
proof (induction a x rule: loop_induct [where w = w and ep = ep and u = u and n = n])
  case (Done a x)
  then show ?case by simp
next
  case (Return a x d x')
  from attempt_body_Return_state [OF Return(2)] show ?case by simp
next
  case (Next a x x')
  from Next(3) attempt_body_Next(2,3) [OF Next(2)] show ?case by simp
qed


subsection \<open>What one attempt adds to the log\<close>


lemma attempt_body_upgrades:
  "attempt_body w ep u n a x = (f, x') \<Longrightarrow>
   upgrades (log x') =
     upgrades (log x) +
       (if a = 0 \<and> status_401 (w (log x) (Get u (session_headers x) 10)) then 1 else 0)"
  by (auto simp: attempt_body_def Let_def upgrades_def split: reply.splits option.splits if_splits)


lemma make_request_loop_upgrades:
  "upgrades (log (snd (make_request_loop w ep u n a x))) =
     upgrades (log x) +
       (if a = 0 \<and> 0 < n \<and> status_401 (w (log x) (Get u (session_headers x) 10))
        then 1 else 0)"
proof (induction a x rule: loop_induct [where w = w and ep = ep and u = u and n = n])
  case (Done a x)
  then show ?case by auto
next
  case (Return a x d x')
  from Return(1) attempt_body_upgrades [OF Return(2)] show ?case by simp
next
  case (Next a x x')
  from Next(1,3) attempt_body_upgrades [OF Next(2)] show ?case by simp
qed


subsection \<open>make\_request as a whole\<close>

lemma make_request_results:
  "results (snd (make_request w ep n x)) =
     (case fst (make_request w ep n x) of
        None \<Rightarrow> record_failure ep (results x)
      | Some d \<Rightarrow> record_success (name ep) d (results x))"
  unfolding make_request_def by (rule make_request_loop_results)

lemma make_request_frame:
  "config (snd (make_request w ep n x)) = config x"
  "endpoints (snd (make_request w ep n x)) = endpoints x"
  unfolding make_request_def by (simp_all add: make_request_loop_frame)


lemma make_request_upgrades:
  "upgrades (log (snd (make_request w ep n x))) =
     upgrades (log x) +
       (if 0 < n \<and> status_401 (w (log x)
              (Get (UrlJoin (base_url (config x)) (path ep)) (session_headers x) 10))
        then 1 else 0)"
  unfolding make_request_def by (simp add: make_request_loop_upgrades)

lemma make_request_loop_no_success:
  assumes "\<And>l u h t d. w l (Get u h t) \<noteq> Response 200 (Some d)"
  shows "fst (make_request_loop w ep u n a x) = None"
proof (induction a x rule: loop_induct [where w = w and ep = ep and u = u and n = n])
  case (Done a x)
  then show ?case by simp
next
  case (Return a x d x')
  from Return(2) have "fst (attempt_body w ep u n a x) = Return d" by simp
  then show ?case using assms by (simp add: attempt_body_Return)
next
  case (Next a x x')
  then show ?case by simp
qed

lemma make_request_no_success:
  assumes "\<And>l u h t d. w l (Get u h t) \<noteq> Response 200 (Some d)"
  shows "results (snd (make_request w ep n x)) = record_failure ep (results x)"
proof -
  have "fst (make_request w ep n x) = None"
    unfolding make_request_def using assms by (rule make_request_loop_no_success)
  then show ?thesis by (simp add: make_request_results)
qed

lemma sweep_frame:
  "config (sweep w eps x) = config x \<and> endpoints (sweep w eps x) = endpoints x"
  by (induction eps arbitrary: x) (simp_all add: make_request_frame)


lemma sweep_no_success:
  assumes "\<And>l u h t d. w l (Get u h t) \<noteq> Response 200 (Some d)"
  shows "successful_endpoints (results (sweep w eps x)) = successful_endpoints (results x) \<and>
         extracted_data (results (sweep w eps x)) = extracted_data (results x) \<and>
         structured_data (results (sweep w eps x)) = structured_data (results x)"
proof (induction eps arbitrary: x)
  case Nil
  then show ?case by simp
next
  case (Cons ep eps)
  have "results (snd (make_request w ep 3 x)) = record_failure ep (results x)"
    using assms by (rule make_request_no_success)
  then show ?case
    by (simp add: Cons record_failure_def)
qed

lemma try_graphql_log:
  "log (try_graphql w x) = Exchange (graphql_request x) (w (log x) (graphql_request x)) # log x"
  by (simp add: try_graphql_def Let_def split: reply.splits option.splits)




lemma length_catalog: "length (catalog c) = 19"
  by (simp add: catalog_def Let_def)




lemma headers_after_append:
  "headers_after h (new2 @ new1) = headers_after (headers_after h new1) new2"
proof (induction new2)
  case Nil
  then show ?case by simp
next
  case (Cons e new2)
  then show ?case by (cases e) simp_all
qed

lemma transcript_append:
  "transcript w u h base new1 \<Longrightarrow>
   transcript w u (headers_after h new1) (new1 @ base) new2 \<Longrightarrow>
   transcript w u h base (new2 @ new1)"
proof (induction new2)
  case Nil
  then show ?case by simp
next
  case (Cons e new2)
  then show ?case by (cases e) (simp_all add: headers_after_append)
qed

lemma attempt_body_cases:
  assumes "attempt_body w ep u n a x = (f, x')"
  shows "x' = x\<lparr>log := Exchange (Get u (session_headers x) 10)
                          (w (log x) (Get u (session_headers x) 10)) # log x\<rparr>
     \<or> x' = x\<lparr>log := Sleep 1 # Exchange (Get u (session_headers x) 10)
                          (w (log x) (Get u (session_headers x) 10)) # log x\<rparr>
     \<or> x' = x\<lparr>session_headers :=
                 AList.update ''X-Auth-Token'' (token (config x)) (session_headers x),
               log := SetHeader ''X-Auth-Token'' (token (config x)) #
                        Exchange (Get u (session_headers x) 10)
                          (w (log x) (Get u (session_headers x) 10)) # log x\<rparr>
     \<or> (\<exists>r. x' = x\<lparr>log := Exchange (Get u (session_headers x) 10)
                          (w (log x) (Get u (session_headers x) 10)) # log x,
                      results := r\<rparr>)"
  using assms
  by (auto simp: attempt_body_def Let_def split: reply.splits option.splits if_splits)

lemma attempt_body_Next_cases:
  assumes "attempt_body w ep u n a x = (Next, x')"
  shows "(log x' = [Exchange (Get u (session_headers x) 10)
                      (w (log x) (Get u (session_headers x) 10))] @ log x \<and>
          session_headers x' = session_headers x)
       \<or> (log x' = [Sleep 1, Exchange (Get u (session_headers x) 10)
                      (w (log x) (Get u (session_headers x) 10))] @ log x \<and>
          session_headers x' = session_headers x)
       \<or> (log x' = [SetHeader ''X-Auth-Token'' (token (config x)),
                     Exchange (Get u (session_headers x) 10)
                      (w (log x) (Get u (session_headers x) 10))] @ log x \<and>
          session_headers x' =
            AList.update ''X-Auth-Token'' (token (config x)) (session_headers x))"
  using attempt_body_cases [OF assms] by (elim disjE exE) simp_all

lemma transcript_one:
  "transcript w u h base [Exchange (Get u h 10) (w base (Get u h 10))]"
  "transcript w u h base [Sleep 1, Exchange (Get u h 10) (w base (Get u h 10))]"
  "transcript w u h base [SetHeader k v, Exchange (Get u h 10) (w base (Get u h 10))]"
  by simp_all

lemma gets_one:
  "gets [Exchange (Get u h t) rep] = 1"
  "gets [Sleep m, Exchange (Get u h t) rep] = 1"
  "gets [SetHeader k v, Exchange (Get u h t) rep] = 1"
  by (simp_all add: gets_def)

lemma attempt_body_transcript_Return:
  assumes "attempt_body w ep u n a x = (Return d, x')"
  shows "log x' = [Exchange (Get u (session_headers x) 10) (Response 200 (Some d))] @ log x"
    and "transcript w u (session_headers x) (log x)
           [Exchange (Get u (session_headers x) 10) (Response 200 (Some d))]"
    and "session_headers x' = session_headers x"
proof -
  from assms have r: "w (log x) (Get u (session_headers x) 10) = Response 200 (Some d)"
    using attempt_body_Return [of w ep u n a x d] by simp
  from attempt_body_Return_state [OF assms]
  show "log x' = [Exchange (Get u (session_headers x) 10) (Response 200 (Some d))] @ log x"
    and "session_headers x' = session_headers x" by simp_all
  from transcript_one(1) [of w u "session_headers x" "log x"] r
  show "transcript w u (session_headers x) (log x)
           [Exchange (Get u (session_headers x) 10) (Response 200 (Some d))]" by simp
qed

lemma attempt_body_transcript_Next:
  assumes "attempt_body w ep u n a x = (Next, x')"
  shows "\<exists>new. log x' = new @ log x \<and>
               transcript w u (session_headers x) (log x) new \<and>
               session_headers x' = headers_after (session_headers x) new \<and>
               gets new = 1 \<and>
               (\<forall>req d. Exchange req (Response 200 (Some d)) \<notin> set new)"
proof -
  let ?req = "Get u (session_headers x) 10"
  let ?e = "Exchange ?req (w (log x) ?req)"
  let ?k = "''X-Auth-Token''"
  have ne: "w (log x) ?req \<noteq> Response 200 (Some d)" for d
    using assms attempt_body_Return [of w ep u n a x d] by auto
  have no: "Exchange req (Response 200 (Some d)) \<noteq> ?e" for req d
    using ne [of d] by auto
  from attempt_body_Next_cases [OF assms]
  consider (plain) "log x' = [?e] @ log x" "session_headers x' = session_headers x"
      | (slept) "log x' = [Sleep 1, ?e] @ log x" "session_headers x' = session_headers x"
      | (upgraded) "log x' = [SetHeader ?k (token (config x)), ?e] @ log x"
          "session_headers x' = AList.update ?k (token (config x)) (session_headers x)"
    by blast
  then show ?thesis
  proof cases
    case plain
    show ?thesis
      by (rule exI [of _ "[?e]"]) (simp add: plain gets_one no ne [symmetric])
  next
    case slept
    show ?thesis
      by (rule exI [of _ "[Sleep 1, ?e]"]) (simp add: slept gets_one no ne [symmetric])
  next
    case upgraded
    show ?thesis
      by (rule exI [of _ "[SetHeader ?k (token (config x)), ?e]"])
         (simp add: upgraded gets_one no ne [symmetric])
  qed
qed


lemma make_request_loop_transcript:
  "\<exists>new. log (snd (make_request_loop w ep u n a x)) = new @ log x \<and>
         transcript w u (session_headers x) (log x) new \<and>
         session_headers (snd (make_request_loop w ep u n a x)) =
           headers_after (session_headers x) new \<and>
         (\<forall>d. fst (make_request_loop w ep u n a x) = Some d \<longleftrightarrow>
                (\<exists>req. Exchange req (Response 200 (Some d)) \<in> set new)) \<and>
         (\<forall>req d. Exchange req (Response 200 (Some d)) \<in> set new \<longrightarrow>
                    hd new = Exchange req (Response 200 (Some d))) \<and>
         gets new \<le> n - a \<and>
         (fst (make_request_loop w ep u n a x) = None \<longrightarrow> gets new = n - a)"
proof (induction a x rule: loop_induct [where w = w and ep = ep and u = u and n = n])
  case (Done a x)
  then show ?case by (simp add: gets_def)
next
  case (Return a x d x')
  let ?e = "Exchange (Get u (session_headers x) 10) (Response 200 (Some d))"
  note t = attempt_body_transcript_Return [OF Return(2)]
  have "gets [?e] \<le> n - a" using Return(1) by (simp add: gets_def)
  with t show ?case
    by (intro exI [of _ "[?e]"]) (auto simp del: transcript.simps)
next
  case (Next a x x')
  let ?r = "make_request_loop w ep u n (Suc a) x'"
  from Next(3) obtain new2 where c2: "log (snd ?r) = new2 @ log x' \<and>
    transcript w u (session_headers x') (log x') new2 \<and>
    session_headers (snd ?r) = headers_after (session_headers x') new2 \<and>
    (\<forall>d. fst ?r = Some d \<longleftrightarrow> (\<exists>req. Exchange req (Response 200 (Some d)) \<in> set new2)) \<and>
    (\<forall>req d. Exchange req (Response 200 (Some d)) \<in> set new2 \<longrightarrow>
               hd new2 = Exchange req (Response 200 (Some d))) \<and>
    gets new2 \<le> n - Suc a \<and> (fst ?r = None \<longrightarrow> gets new2 = n - Suc a)" ..
  then have n2: "log (snd ?r) = new2 @ log x'"
    "transcript w u (session_headers x') (log x') new2"
    "session_headers (snd ?r) = headers_after (session_headers x') new2"
    "\<forall>d. fst ?r = Some d \<longleftrightarrow> (\<exists>req. Exchange req (Response 200 (Some d)) \<in> set new2)"
    "\<forall>req d. Exchange req (Response 200 (Some d)) \<in> set new2 \<longrightarrow>
               hd new2 = Exchange req (Response 200 (Some d))"
    "gets new2 \<le> n - Suc a" "fst ?r = None \<longrightarrow> gets new2 = n - Suc a"
    by simp_all
  from attempt_body_transcript_Next [OF Next(2)] obtain new1 where c1:
    "log x' = new1 @ log x \<and>
     transcript w u (session_headers x) (log x) new1 \<and>
     session_headers x' = headers_after (session_headers x) new1 \<and>
     gets new1 = 1 \<and> (\<forall>req d. Exchange req (Response 200 (Some d)) \<notin> set new1)" ..
  then have n1: "log x' = new1 @ log x"
    "transcript w u (session_headers x) (log x) new1"
    "session_headers x' = headers_after (session_headers x) new1"
    "gets new1 = 1" "\<forall>req d. Exchange req (Response 200 (Some d)) \<notin> set new1"
    by simp_all
  have g: "gets (new2 @ new1) = gets new2 + 1" using n1(4) by (simp add: gets_def)
  have "log (snd ?r) = (new2 @ new1) @ log x" using n2(1) n1(1) by simp
  moreover have "transcript w u (session_headers x) (log x) (new2 @ new1)"
    using n1(2) n2(2) by (intro transcript_append) (simp_all add: n1(1,3))
  moreover have "session_headers (snd ?r) = headers_after (session_headers x) (new2 @ new1)"
    using n2(3) n1(3) by (simp add: headers_after_append)
  moreover have "\<forall>d. fst ?r = Some d \<longleftrightarrow>
      (\<exists>req. Exchange req (Response 200 (Some d)) \<in> set (new2 @ new1))"
    using n2(4) n1(5) by auto
  moreover have "\<forall>req d. Exchange req (Response 200 (Some d)) \<in> set (new2 @ new1) \<longrightarrow>
      hd (new2 @ new1) = Exchange req (Response 200 (Some d))"
  proof (intro allI impI)
    fix req d assume "Exchange req (Response 200 (Some d)) \<in> set (new2 @ new1)"
    with n1(5) have m: "Exchange req (Response 200 (Some d)) \<in> set new2" by auto
    then have "new2 \<noteq> []" by auto
    with m n2(5) show "hd (new2 @ new1) = Exchange req (Response 200 (Some d))" by simp
  qed
  moreover have "gets (new2 @ new1) \<le> n - a" using g n2(6) Next(1) by simp
  moreover have "fst ?r = None \<longrightarrow> gets (new2 @ new1) = n - a" using g n2(7) Next(1) by auto
  ultimately show ?case by (intro exI [of _ "new2 @ new1"] conjI)
qed

lemma make_request_transcript:
  "\<exists>new. log (snd (make_request w ep n x)) = new @ log x \<and>
         transcript w (UrlJoin (base_url (config x)) (path ep)) (session_headers x) (log x) new \<and>
         session_headers (snd (make_request w ep n x)) =
           headers_after (session_headers x) new \<and>
         (\<forall>d. fst (make_request w ep n x) = Some d \<longleftrightarrow>
                (\<exists>req. Exchange req (Response 200 (Some d)) \<in> set new)) \<and>
         (\<forall>req d. Exchange req (Response 200 (Some d)) \<in> set new \<longrightarrow>
                    hd new = Exchange req (Response 200 (Some d))) \<and>
         gets new \<le> n \<and>
         (fst (make_request w ep n x) = None \<longrightarrow> gets new = n)"
  using make_request_loop_transcript
    [of w ep "UrlJoin (base_url (config x)) (path ep)" n 0 x]
  by (simp add: make_request_def)

lemma make_request_first_success:
  assumes "0 < n"
    and "w (log x) (Get (UrlJoin (base_url (config x)) (path ep)) (session_headers x) 10)
           = Response 200 (Some d)"
  shows "make_request w ep n x =
           (Some d,
            x\<lparr>log := Exchange (Get (UrlJoin (base_url (config x)) (path ep))
                                 (session_headers x) 10) (Response 200 (Some d)) # log x,
              results := record_success (name ep) d (results x)\<rparr>)"
proof -
  let ?u = "UrlJoin (base_url (config x)) (path ep)"
  obtain f x' where b: "attempt_body w ep ?u n 0 x = (f, x')"
    by (cases "attempt_body w ep ?u n 0 x")
  with assms(2) attempt_body_Return [of w ep ?u n 0 x d] have f: "f = Return d" by simp
  from attempt_body_Return_state [of w ep ?u n 0 x d x'] b f
  have "x' = x\<lparr>log := Exchange (Get ?u (session_headers x) 10) (Response 200 (Some d)) # log x,
                results := record_success (name ep) d (results x)\<rparr>" by simp
  with loop_return [of 0 n w ep ?u x d x'] assms(1) b f show ?thesis
    by (simp add: make_request_def)
qed


lemma attempt_body_unparseable:
  "w (log x) (Get u (session_headers x) 10) = Response 200 None \<Longrightarrow>
   attempt_body w ep u n a x =
     (Next, x\<lparr>log := Exchange (Get u (session_headers x) 10) (Response 200 None) # log x\<rparr>)"
  by (simp add: attempt_body_def Let_def)

text \<open>
  An attempt that ends with an exception of \<^verbatim>\<open>session.get\<close> only logs the exchange: no
  sleep follows it, whatever the attempt number.
\<close>

lemma attempt_body_raises:
  "w (log x) (Get u (session_headers x) 10) = rep \<Longrightarrow>
   rep = Timeout \<or> rep = ConnectionError \<or> rep = OtherException \<Longrightarrow>
   attempt_body w ep u n a x =
     (Next, x\<lparr>log := Exchange (Get u (session_headers x) 10) rep # log x\<rparr>)"
  by (auto simp: attempt_body_def Let_def)

lemma make_request_loop_raises:
  assumes "\<And>l r. w l r = Timeout \<or> w l r = ConnectionError"
  shows "sleeps (log (snd (make_request_loop w ep u n a x))) = sleeps (log x) \<and>
         gets (log (snd (make_request_loop w ep u n a x))) = gets (log x) + (n - a)"
proof (induction a x rule: loop_induct [where w = w and ep = ep and u = u and n = n])
  case (Done a x)
  then show ?case by simp
next
  case (Return a x d x')
  from Return(2) have "fst (attempt_body w ep u n a x) = Return d" by simp
  then have "w (log x) (Get u (session_headers x) 10) = Response 200 (Some d)"
    by (simp add: attempt_body_Return)
  with assms [of "log x" "Get u (session_headers x) 10"] show ?case by simp
next
  case (Next a x x')
  let ?req = "Get u (session_headers x) 10"
  have "attempt_body w ep u n a x = (Next, x\<lparr>log := Exchange ?req (w (log x) ?req) # log x\<rparr>)"
    using assms [of "log x" ?req] by (intro attempt_body_raises) auto
  with Next(2) have "x' = x\<lparr>log := Exchange ?req (w (log x) ?req) # log x\<rparr>" by simp
  with Next(1,3) show ?case by (simp add: sleeps_def gets_def)
qed

text \<open>
  When every attempt ends with a timeout or a connection error, a call makes all its
  \<^verbatim>\<open>retry_count\<close> requests and never sleeps.
\<close>

lemma make_request_raises:
  assumes "\<And>l r. w l r = Timeout \<or> w l r = ConnectionError"
  shows "sleeps (log (snd (make_request w ep n x))) = sleeps (log x) \<and>
         gets (log (snd (make_request w ep n x))) = gets (log x) + n"
  using make_request_loop_raises [of w ep _ n 0 x, OF assms] by (simp add: make_request_def)

text \<open>
  Claim C9. An attempt makes \<^verbatim>\<open>make_request\<close> return data exactly when the reply has
  status 200 and its body parses as JSON. A reply with status 200 whose body does not
  parse only logs the exchange and lets the loop go on, with the results unchanged.
  What a call adds to the log is a transcript of its attempts: every exchange is a GET of
  the descriptor's target, sent with the session headers of that moment and answered by
  the transport. The call returns data \<open>d\<close> exactly when one of these exchanges got status
  200 with the JSON body \<open>d\<close>, and that exchange is then the last event of the call: no
  attempt follows a success. The call makes at most \<^verbatim>\<open>retry_count\<close> requests, and all of
  them when it returns \<^verbatim>\<open>None\<close>. It records the descriptor in \<^verbatim>\<open>failed_endpoints\<close> when
  it returns \<^verbatim>\<open>None\<close> and in \<^verbatim>\<open>successful_endpoints\<close> and \<^verbatim>\<open>extracted_data\<close> when it
  returns data, and changes nothing else in the results. When the first attempt is
  answered 200 with a JSON body, the call returns it after that single request.
\<close>

theorem C9_success_iff_200_and_json:
  "(fst (attempt_body w ep u n a x) = Return d \<longleftrightarrow>
      w (log x) (Get u (session_headers x) 10) = Response 200 (Some d))
   \<and> (w (log x) (Get u (session_headers x) 10) = Response 200 None \<longrightarrow>
        attempt_body w ep u n a x =
          (Next, x\<lparr>log := Exchange (Get u (session_headers x) 10) (Response 200 None) # log x\<rparr>))
   \<and> (\<exists>new. log (snd (make_request w ep n x)) = new @ log x \<and>
         transcript w (UrlJoin (base_url (config x)) (path ep)) (session_headers x) (log x) new \<and>
         session_headers (snd (make_request w ep n x)) =
           headers_after (session_headers x) new \<and>
         (\<forall>d. fst (make_request w ep n x) = Some d \<longleftrightarrow>
                (\<exists>req. Exchange req (Response 200 (Some d)) \<in> set new)) \<and>
         (\<forall>req d. Exchange req (Response 200 (Some d)) \<in> set new \<longrightarrow>
                    hd new = Exchange req (Response 200 (Some d))) \<and>
         gets new \<le> n \<and>
         (fst (make_request w ep n x) = None \<longrightarrow> gets new = n))
   \<and> results (snd (make_request w ep n x)) =
       (case fst (make_request w ep n x) of
          None \<Rightarrow> record_failure ep (results x)
        | Some d \<Rightarrow> record_success (name ep) d (results x))
   \<and> (0 < n \<and>
        w (log x) (Get (UrlJoin (base_url (config x)) (path ep)) (session_headers x) 10)
          = Response 200 (Some d) \<longrightarrow>
        make_request w ep n x =
          (Some d,
           x\<lparr>log := Exchange (Get (UrlJoin (base_url (config x)) (path ep))
                                (session_headers x) 10) (Response 200 (Some d)) # log x,
             results := record_success (name ep) d (results x)\<rparr>))"
  using attempt_body_Return [of w ep u n a x d] attempt_body_unparseable [of w x u ep n a]
    make_request_transcript [of w ep n x] make_request_results [of w ep n x]
    make_request_first_success [of n w x ep d]
  by (intro conjI impI) simp_all

lemma fresh_request:
  "UrlJoin (base_url (config (extractor_init t))) (path execution_endpoint) =
     UrlJoin ''https://api-app2.virtuoso.qa/api'' ''/executions/88715''"
  "session_headers (extractor_init t) = initial_headers default_config"
  "log (extractor_init t) = []"
  by (simp_all add: extractor_init_def default_config_def execution_endpoint_def mk_endpoint_def)

lemma catalog_head: "hd (catalog default_config) = execution_endpoint"
  by (simp add: catalog_def Let_def default_config_def execution_endpoint_def str_int_def
      str_nat.simps)

text \<open>
  Claim C9, witness. When every reply is 200 with a body that is not JSON, three requests
  are made, the descriptor is recorded as failed, and nothing is recorded as a success.
  When every reply is 200 with the JSON body \<^verbatim>\<open>{}\<close>, one request is made and the
  descriptor is recorded as a success with that payload.
\<close>

theorem C9_witness:
  "make_request world_html execution_endpoint 3 (extractor_init []) =
     (None, (extractor_init [])\<lparr>
        log := [Exchange execution_get (Response 200 None),
                Exchange execution_get (Response 200 None),
                Exchange execution_get (Response 200 None)],
        results := record_failure execution_endpoint (results (extractor_init []))\<rparr>)
   \<and> make_request world_ok execution_endpoint 3 (extractor_init []) =
     (Some (JObj []), (extractor_init [])\<lparr>
        log := [Exchange execution_get (Response 200 (Some (JObj [])))],
        results := record_success (name execution_endpoint) (JObj [])
                     (results (extractor_init []))\<rparr>)"
  using C9_success_iff_200_and_json
    [of world_html execution_endpoint
        "UrlJoin ''https://api-app2.virtuoso.qa/api'' ''/executions/88715''" 3 0
        "extractor_init []" JNull]
    C9_success_iff_200_and_json
    [of world_ok execution_endpoint
        "UrlJoin ''https://api-app2.virtuoso.qa/api'' ''/executions/88715''" 3 0
        "extractor_init []" "JObj []"]
  by (simp add: make_request_def fresh_request make_request_loop.simps attempt_body_def
      world_html_def world_ok_def execution_get_def record_failure_def failed_record_def
      record_success_def Let_def del: transcript.simps)

text \<open>
  Claim C2 fails on the code: when every request times out, the three attempts follow one
  another with no \<^verbatim>\<open>time.sleep\<close> between them, because the exception leaves the
  \<^verbatim>\<open>try\<close> block before the sleep. When every reply is a 404, the same call sleeps
  between the attempts.
\<close>

theorem C2_timeout_retried_without_delay:
  "log (snd (make_request world_timeout execution_endpoint 3 (extractor_init []))) =
     [Exchange execution_get Timeout, Exchange execution_get Timeout,
      Exchange execution_get Timeout]
   \<and> log (snd (make_request world_404 execution_endpoint 3 (extractor_init []))) =
     [Exchange execution_get (Response 404 None), Sleep 1,
      Exchange execution_get (Response 404 None), Sleep 1,
      Exchange execution_get (Response 404 None)]"
  by (simp add: make_request_def fresh_request make_request_loop.simps attempt_body_def
      world_timeout_def world_404_def execution_get_def Let_def)


subsection \<open>The invariant of the aggregate\<close>

lemma record_failure_inv:
  "aggregate_inv r \<Longrightarrow> fresh (name ep) r \<Longrightarrow> aggregate_inv (record_failure ep r)"
  by (auto simp: aggregate_inv_def fresh_def record_failure_def failed_record_def)

lemma record_success_inv:
  "aggregate_inv r \<Longrightarrow> fresh n r \<Longrightarrow> aggregate_inv (record_success n d r)"
  by (auto simp: aggregate_inv_def fresh_def record_success_def update_conv')

lemma fresh_record_failure:
  "m \<noteq> name ep \<Longrightarrow> fresh m r \<Longrightarrow> fresh m (record_failure ep r)"
  by (auto simp: fresh_def record_failure_def failed_record_def)

lemma fresh_record_success:
  "m \<noteq> n \<Longrightarrow> fresh m r \<Longrightarrow> fresh m (record_success n d r)"
  by (auto simp: fresh_def record_success_def update_conv')

lemma make_request_inv:
  "aggregate_inv (results x) \<Longrightarrow> fresh (name ep) (results x) \<Longrightarrow>
   aggregate_inv (results (snd (make_request w ep k x)))"
  by (simp add: make_request_results record_failure_inv record_success_inv split: option.splits)

lemma make_request_fresh:
  "m \<noteq> name ep \<Longrightarrow> fresh m (results x) \<Longrightarrow>
   fresh m (results (snd (make_request w ep k x)))"
  by (simp add: make_request_results fresh_record_failure fresh_record_success
      split: option.splits)

lemma sweep_fresh:
  "g \<notin> set (map name eps) \<Longrightarrow> fresh g (results x) \<Longrightarrow> fresh g (results (sweep w eps x))"
proof (induction eps arbitrary: x)
  case Nil
  then show ?case by simp
next
  case (Cons ep eps)
  from Cons.prems have "fresh g (results (snd (make_request w ep 3 x)))"
    by (intro make_request_fresh) auto
  with Cons.prems Cons.IH show ?case by simp
qed

lemma sweep_inv:
  assumes "distinct (map name eps)" and "aggregate_inv (results x)"
    and "\<forall>ep \<in> set eps. fresh (name ep) (results x)"
  shows "aggregate_inv (results (sweep w eps x))"
  using assms
proof (induction eps arbitrary: x)
  case Nil
  then show ?case by simp
next
  case (Cons ep eps)
  let ?y = "snd (make_request w ep 3 x)"
  from Cons.prems have a: "aggregate_inv (results ?y)"
    by (intro make_request_inv) simp_all
  have b: "\<forall>e \<in> set eps. fresh (name e) (results ?y)"
  proof
    fix e assume e: "e \<in> set eps"
    with Cons.prems(1) have "name e \<noteq> name ep" by (auto simp: image_iff)
    moreover from e Cons.prems(3) have "fresh (name e) (results x)" by simp
    ultimately show "fresh (name e) (results ?y)" by (rule make_request_fresh)
  qed
  from Cons.prems(1) have "distinct (map name eps)" by simp
  from Cons.IH [OF this a b] show ?case by simp
qed

lemma record_success_swap:
  "r\<lparr>extracted_data := AList.update n d (extracted_data r),
     successful_endpoints := successful_endpoints r @ [n]\<rparr> = record_success n d r"
  by (cases r) (simp add: record_success_def)

lemma try_graphql_results:
  "results (try_graphql w x) = results x \<or>
   (\<exists>d. results (try_graphql w x) = record_success ''graphql'' d (results x))"
  by (auto simp: try_graphql_def Let_def record_success_swap split: reply.splits option.splits)

lemma try_graphql_inv:
  "aggregate_inv (results x) \<Longrightarrow> fresh ''graphql'' (results x) \<Longrightarrow>
   aggregate_inv (results (try_graphql w x))"
  using try_graphql_results [of w x] by (auto simp: record_success_inv)

lemma fresh_empty:
  "successful_endpoints r = [] \<Longrightarrow> failed_endpoints r = [] \<Longrightarrow> extracted_data r = [] \<Longrightarrow>
   fresh n r \<and> aggregate_inv r"
  by (simp add: fresh_def aggregate_inv_def)

text \<open>
  Claim C6. For a catalog whose names are distinct and do not include \<^verbatim>\<open>graphql\<close>, as the
  catalog of the extractor is, and results that start empty: the invariant of the
  aggregate holds after the sweep of every prefix of the catalog, that is after each
  appended outcome, and after the whole run with its optional GraphQL probe.
\<close>

theorem C6_aggregate_invariant:
  assumes "distinct (map name (endpoints x))"
    and "''graphql'' \<notin> set (map name (endpoints x))"
    and "successful_endpoints (results x) = []"
    and "failed_endpoints (results x) = []"
    and "extracted_data (results x) = []"
  shows "(\<forall>k \<le> length (endpoints x).
            aggregate_inv (results (sweep w (take k (endpoints x)) x)))
         \<and> aggregate_inv (results (extract_all_data w x))"
proof -
  have e: "fresh n (results x)" "aggregate_inv (results x)" for n
    using fresh_empty [OF assms(3,4,5)] by simp_all
  have p: "aggregate_inv (results (sweep w (take k (endpoints x)) x))" for k
  proof (rule sweep_inv)
    show "distinct (map name (take k (endpoints x)))"
      using assms(1) by (simp add: take_map [symmetric] distinct_take)
  qed (simp_all add: e)
  have s: "aggregate_inv (results (sweep w (endpoints x) x))"
    using p [of "length (endpoints x)"] by simp
  have g: "fresh ''graphql'' (results (sweep w (endpoints x) x))"
    using assms(2) e(1) by (rule sweep_fresh)
  have "aggregate_inv (results (extract_all_data w x))"
    by (simp add: extract_all_data_def Let_def s try_graphql_inv [OF s g])
  with p show ?thesis by simp
qed

lemma catalog_names:
  "map name (catalog c) =
     [''execution'', ''execution_journey'', ''project_execution'', ''testsuite'',
      ''testsuite_direct'', ''checkpoints'', ''steps'', ''journey_steps'', ''actions'',
      ''screenshots'', ''logs'', ''results'', ''reports'', ''testdata'', ''metadata'',
      ''org_execution'', ''v2_execution'', ''run'', ''test_run'']"
  by (simp add: catalog_def Let_def mk_endpoint_def)

lemma catalog_distinct:
  "distinct (map name (catalog c))" "''graphql'' \<notin> set (map name (catalog c))"
  by (simp_all add: catalog_names)

text \<open>
  Claim C6, witness: a run of the fresh extractor, whose catalog has distinct names
  without \<^verbatim>\<open>graphql\<close>, against the transport that answers 200 with a JSON body.
\<close>

theorem C6_witness:
  "aggregate_inv (results (sweep world_ok (take 7 (endpoints (extractor_init [])))
                     (extractor_init [])))
   \<and> aggregate_inv (results (extract_all_data world_ok (extractor_init [])))"
proof -
  have "endpoints (extractor_init []) = catalog default_config"
    "successful_endpoints (results (extractor_init [])) = []"
    "failed_endpoints (results (extractor_init [])) = []"
    "extracted_data (results (extractor_init [])) = []"
    by (simp_all add: extractor_init_def)
  moreover have "distinct (map name (catalog default_config))"
    "''graphql'' \<notin> set (map name (catalog default_config))"
    by (rule catalog_distinct)+
  moreover have "(7::nat) \<le> length (catalog default_config)"
    by (simp add: length_catalog)
  ultimately show ?thesis
    using C6_aggregate_invariant [of "extractor_init []" world_ok]
    by auto
qed


subsection \<open>What the header assignments are\<close>

lemma attempt_body_assignments:
  assumes "\<forall>e \<in> set (log x). is_upgrade e \<longrightarrow> e = SetHeader ''X-Auth-Token'' (token (config x))"
    and "attempt_body w ep u n a x = (f, x')"
  shows "\<forall>e \<in> set (log x'). is_upgrade e \<longrightarrow> e = SetHeader ''X-Auth-Token'' (token (config x'))"
  using attempt_body_cases [OF assms(2)] assms(1)
  by (elim disjE exE) simp_all

lemma make_request_loop_assignments:
  "(\<forall>e \<in> set (log x). is_upgrade e \<longrightarrow> e = SetHeader ''X-Auth-Token'' (token (config x))) \<longrightarrow>
   (\<forall>e \<in> set (log (snd (make_request_loop w ep u n a x))).
      is_upgrade e \<longrightarrow>
      e = SetHeader ''X-Auth-Token'' (token (config (snd (make_request_loop w ep u n a x)))))"
proof (induction a x rule: loop_induct [where w = w and ep = ep and u = u and n = n])
  case (Done a x)
  then show ?case by simp
next
  case (Return a x d x')
  then show ?case using attempt_body_assignments [of x w ep u n a "Return d" x'] by simp
next
  case (Next a x x')
  then show ?case using attempt_body_assignments [of x w ep u n a Next x'] by simp
qed

lemma sweep_assignments:
  "\<forall>e \<in> set (log x). is_upgrade e \<longrightarrow> e = SetHeader ''X-Auth-Token'' (token (config x)) \<Longrightarrow>
   \<forall>e \<in> set (log (sweep w eps x)).
      is_upgrade e \<longrightarrow> e = SetHeader ''X-Auth-Token'' (token (config (sweep w eps x)))"
proof (induction eps arbitrary: x)
  case Nil
  then show ?case by simp
next
  case (Cons ep eps)
  from Cons.prems
    make_request_loop_assignments [of x w ep "UrlJoin (base_url (config x)) (path ep)" 3 0]
  have "\<forall>e \<in> set (log (snd (make_request w ep 3 x))).
          is_upgrade e \<longrightarrow>
          e = SetHeader ''X-Auth-Token'' (token (config (snd (make_request w ep 3 x))))"
    by (simp add: make_request_def)
  from Cons.IH [OF this] show ?case by simp
qed

lemma extract_all_data_assignments:
  assumes "\<forall>e \<in> set (log x). is_upgrade e \<longrightarrow> e = SetHeader ''X-Auth-Token'' (token (config x))"
  shows "\<forall>e \<in> set (log (extract_all_data w x)).
           is_upgrade e \<longrightarrow> e = SetHeader ''X-Auth-Token'' (token (config x))"
proof -
  let ?y = "sweep w (endpoints x) x"
  from sweep_assignments [OF assms, of w "endpoints x"]
  have s: "\<forall>e \<in> set (log ?y). is_upgrade e \<longrightarrow> e = SetHeader ''X-Auth-Token'' (token (config x))"
    by (simp add: sweep_frame)
  then have "\<forall>e \<in> set (log (try_graphql w ?y)).
      is_upgrade e \<longrightarrow> e = SetHeader ''X-Auth-Token'' (token (config x))"
    by (simp add: try_graphql_log)
  with s show ?thesis by (simp add: extract_all_data_def Let_def)
qed

lemma filter_all_same:
  "\<forall>e \<in> set l. P e \<longrightarrow> e = c \<Longrightarrow> filter P l = replicate (length (filter P l)) c"
  by (induction l) auto


subsection \<open>The secondary header\<close>

lemma header_synced_results [simp]:
  "header_synced (x\<lparr>results := r\<rparr>) = header_synced x"
  by (simp add: header_synced_def cong: option.case_cong)

lemma header_synced_exchange:
  "header_synced x \<Longrightarrow> request_headers req = session_headers x \<Longrightarrow>
   header_synced (x\<lparr>log := Exchange req rep # log x\<rparr>)"
  by (simp add: header_synced_def cong: option.case_cong)

lemma header_synced_sleep:
  "header_synced x \<Longrightarrow> header_synced (x\<lparr>log := Sleep n # log x\<rparr>)"
  by (simp add: header_synced_def cong: option.case_cong)

lemma header_synced_set:
  "header_synced x \<Longrightarrow>
   header_synced (x\<lparr>session_headers := AList.update k v (session_headers x),
                     log := SetHeader k v # log x\<rparr>)"
  by (simp add: header_synced_def update_conv')

lemma attempt_body_synced:
  assumes "header_synced x" and "attempt_body w ep u n a x = (f, x')"
  shows "header_synced x'"
proof -
  let ?req = "Get u (session_headers x) 10"
  let ?x1 = "x\<lparr>log := Exchange ?req (w (log x) ?req) # log x\<rparr>"
  have s1: "header_synced ?x1"
    using assms(1) by (rule header_synced_exchange) simp
  have s2: "header_synced (?x1\<lparr>log := Sleep 1 # log ?x1\<rparr>)"
    using s1 by (rule header_synced_sleep)
  have s3: "header_synced
      (?x1\<lparr>session_headers :=
             AList.update ''X-Auth-Token'' (token (config ?x1)) (session_headers ?x1),
           log := SetHeader ''X-Auth-Token'' (token (config ?x1)) # log ?x1\<rparr>)"
    using s1 by (rule header_synced_set)
  have "x' = ?x1 \<or> x' = ?x1\<lparr>log := Sleep 1 # log ?x1\<rparr>
      \<or> x' = ?x1\<lparr>session_headers :=
             AList.update ''X-Auth-Token'' (token (config ?x1)) (session_headers ?x1),
           log := SetHeader ''X-Auth-Token'' (token (config ?x1)) # log ?x1\<rparr>
      \<or> (\<exists>r. x' = ?x1\<lparr>results := r\<rparr>)"
    using assms(2)
    by (auto simp: attempt_body_def Let_def split: reply.splits option.splits if_splits)
  with s1 s2 s3 show ?thesis by auto
qed

lemma make_request_loop_synced:
  "header_synced x \<longrightarrow> header_synced (snd (make_request_loop w ep u n a x))"
proof (induction a x rule: loop_induct [where w = w and ep = ep and u = u and n = n])
  case (Done a x)
  then show ?case by simp
next
  case (Return a x d x')
  then show ?case by (auto dest: attempt_body_synced)
next
  case (Next a x x')
  then show ?case by (auto dest: attempt_body_synced)
qed

lemma sweep_synced: "header_synced x \<Longrightarrow> header_synced (sweep w eps x)"
  by (induction eps arbitrary: x) (simp_all add: make_request_def make_request_loop_synced)

lemma try_graphql_state:
  "try_graphql w x =
     (x\<lparr>log := Exchange (graphql_request x) (w (log x) (graphql_request x)) # log x\<rparr>)
       \<lparr>results := results (try_graphql w x)\<rparr>"
  by (simp add: try_graphql_def Let_def split: reply.splits option.splits)

lemma try_graphql_synced: "header_synced x \<Longrightarrow> header_synced (try_graphql w x)"
proof -
  assume s: "header_synced x"
  have "header_synced (x\<lparr>log := Exchange (graphql_request x) (w (log x) (graphql_request x))
                              # log x\<rparr>)"
    using s by (rule header_synced_exchange) (simp add: graphql_request_def)
  then show ?thesis
    by (subst try_graphql_state) simp
qed

lemma extract_all_data_synced: "header_synced x \<Longrightarrow> header_synced (extract_all_data w x)"
  by (simp add: extract_all_data_def Let_def sweep_synced try_graphql_synced)

lemma init_synced: "header_synced (extractor_init t)"
  by (simp add: header_synced_def extractor_init_def)

lemma try_graphql_upgrades: "upgrades (log (try_graphql w x)) = upgrades (log x)"
  by (simp add: try_graphql_log upgrades_def)

lemma sweep_upgrades_le: "upgrades (log (sweep w eps x)) \<le> upgrades (log x) + length eps"
proof (induction eps arbitrary: x)
  case Nil
  then show ?case by simp
next
  case (Cons ep eps)
  have "upgrades (log (snd (make_request w ep 3 x))) \<le> upgrades (log x) + 1"
    by (simp add: make_request_upgrades)
  with Cons [of "snd (make_request w ep 3 x)"] show ?case by simp
qed

lemma sweep_upgrades_401:
  assumes "\<And>l r. status_401 (w l r)"
  shows "upgrades (log (sweep w eps x)) = upgrades (log x) + length eps"
proof (induction eps arbitrary: x)
  case Nil
  then show ?case by simp
next
  case (Cons ep eps)
  have "upgrades (log (snd (make_request w ep 3 x))) = upgrades (log x) + 1"
    by (simp add: make_request_upgrades assms)
  with Cons [of "snd (make_request w ep 3 x)"] show ?case by simp
qed

lemma extract_all_data_upgrades:
  "upgrades (log (extract_all_data w x)) = upgrades (log (sweep w (endpoints x) x))"
  by (simp add: extract_all_data_def Let_def try_graphql_upgrades)

lemma init_fields:
  "endpoints (extractor_init t) = catalog default_config"
  "upgrades (log (extractor_init t)) = 0"
  by (simp_all add: extractor_init_def upgrades_def)

text \<open>
  Claim C7, as amended. One call of \<^verbatim>\<open>make_request\<close> assigns the secondary header once when
  its first attempt is answered 401 and never otherwise, so a run assigns it once for
  each descriptor whose first attempt is answered 401, at most once per descriptor of
  the catalog. In a run of a fresh extractor, every request sent after an assignment
  carries the header with the assigned value, and every assignment of the run assigns
  the token of the configuration to \<^verbatim>\<open>X-Auth-Token\<close>.
\<close>

theorem C7_upgrade_per_descriptor:
  "upgrades (log (snd (make_request w ep n x))) =
     upgrades (log x) +
       (if 0 < n \<and> status_401 (w (log x)
              (Get (UrlJoin (base_url (config x)) (path ep)) (session_headers x) 10))
        then 1 else 0)
   \<and> upgrades (log (extract_all_data w (extractor_init t)))
       \<le> length (endpoints (extractor_init t))
   \<and> carried (log (extract_all_data w (extractor_init t)))
   \<and> filter is_upgrade (log (extract_all_data w (extractor_init t))) =
       replicate (upgrades (log (extract_all_data w (extractor_init t))))
         (SetHeader ''X-Auth-Token'' (token (config (extractor_init t))))"
proof -
  have "\<forall>e \<in> set (log (extract_all_data w (extractor_init t))).
          is_upgrade e \<longrightarrow> e = SetHeader ''X-Auth-Token'' (token (config (extractor_init t)))"
    by (rule extract_all_data_assignments) (simp add: extractor_init_def)
  then have same: "filter is_upgrade (log (extract_all_data w (extractor_init t))) =
       replicate (upgrades (log (extract_all_data w (extractor_init t))))
         (SetHeader ''X-Auth-Token'' (token (config (extractor_init t))))"
    unfolding upgrades_def by (rule filter_all_same)
  have "upgrades (log (extract_all_data w (extractor_init t)))
          \<le> length (endpoints (extractor_init t))"
    using sweep_upgrades_le [of w "endpoints (extractor_init t)" "extractor_init t"]
    by (simp add: extract_all_data_upgrades init_fields)
  moreover have "carried (log (extract_all_data w (extractor_init t)))"
    using extract_all_data_synced [OF init_synced, of w t] by (simp add: header_synced_def)
  ultimately show ?thesis using same by (simp add: make_request_upgrades)
qed

text \<open>
  Claim C7, witness: every request is answered 401. The first call assigns the header
  once, and all later requests of the run carry it.
\<close>

theorem C7_witness:
  "upgrades (log (snd (make_request world_401 execution_endpoint 3 (extractor_init [])))) = 1
   \<and> carried (log (extract_all_data world_401 (extractor_init [])))"
  using C7_upgrade_per_descriptor [of world_401 execution_endpoint 3 "extractor_init []" "[]"]
  by (simp add: world_401_def init_fields)

text \<open>
  Claim C7, counterexample to the claim as stated: when every request is answered 401, the
  run assigns the header 19 times, once per descriptor, not once.
\<close>

theorem C7_counterexample:
  "upgrades (log (extract_all_data world_401 (extractor_init []))) = 19"
  using sweep_upgrades_401 [of world_401 "catalog default_config" "extractor_init []"]
  by (simp add: extract_all_data_upgrades init_fields length_catalog world_401_def)

subsection \<open>The run as a whole\<close>

lemma structure_data_null:
  "extracted_data (results x) = [(''graphql'', null_execution)] \<Longrightarrow>
   structure_data x = Inl TypeError"
  by (simp add: structure_data_def data_sources_def null_execution_def graphql_checkpoints_def
      ebind_def)

lemma world_null_get: "world_null l (Get u h t) \<noteq> Response 200 (Some d)"
  by (simp add: world_null_def)

lemma extract_all_data_null:
  "extracted_data (results (extract_all_data world_null (extractor_init t))) =
     [(''graphql'', null_execution)]"
proof -
  let ?x1 = "sweep world_null (endpoints (extractor_init t)) (extractor_init t)"
  have a: "successful_endpoints (results ?x1) = []" "extracted_data (results ?x1) = []"
    using sweep_no_success [of world_null "endpoints (extractor_init t)" "extractor_init t"]
    by (simp_all add: world_null_get extractor_init_def)
  have "world_null (log ?x1) (graphql_request ?x1) = Response 200 (Some null_execution)"
    by (simp add: world_null_def graphql_request_def)
  then show ?thesis
    by (simp add: extract_all_data_def Let_def a try_graphql_def)
qed

text \<open>
  Claim C5 fails on the code: with \<^verbatim>\<open>{"data": {"execution": null}}\<close> as the only payload,
  stored under \<^verbatim>\<open>graphql\<close>, the test \<^verbatim>\<open>'journey' in exec_data\<close> raises a
  \<^verbatim>\<open>TypeError\<close> and \<^verbatim>\<open>structure_data\<close> does not return. A run reaches that state when
  every REST endpoint is answered 404 and the GraphQL probe gets that reply.
\<close>

theorem C5_null_execution_faults:
  "structure_data (loaded [(''graphql'', null_execution)]) = Inl TypeError
   \<and> structure_data (extract_all_data world_null (extractor_init utcnow)) = Inl TypeError"
proof -
  have "extracted_data (results (loaded [(''graphql'', null_execution)])) =
          [(''graphql'', null_execution)]"
    by (simp add: loaded_def)
  then show ?thesis
    by (simp add: structure_data_null extract_all_data_null)
qed

text \<open>
  Claim C10 fails on the code: when every REST endpoint is answered 404 and the GraphQL
  probe is answered 200 with \<^verbatim>\<open>{"data": {"execution": null}}\<close>, \<^verbatim>\<open>structure_data\<close> raises,
  \<^verbatim>\<open>main\<close> exits with 2 and no file is written.
\<close>

theorem C10_fault_skips_raw_file:
  "main world_null utcnow now = \<lparr> exit_code = 2, files = [] \<rparr>"
  by (simp add: main_def Let_def structure_data_null [OF extract_all_data_null])

lemma make_request_results_config:
  "results_config (results (snd (make_request w ep n x))) = results_config (results x)"
  by (simp add: make_request_results record_failure_def record_success_def split: option.splits)

lemma sweep_results_config:
  "results_config (results (sweep w eps x)) = results_config (results x)"
  by (induction eps arbitrary: x) (simp_all add: make_request_results_config)

lemma try_graphql_frame:
  "results_config (results (try_graphql w x)) = results_config (results x)"
  "config (try_graphql w x) = config x"
  by (simp_all add: try_graphql_def Let_def split: reply.splits option.splits)

lemma extract_all_data_frame:
  "results_config (results (extract_all_data w x)) = results_config (results x)"
  "config (extract_all_data w x) = config x"
  by (simp_all add: extract_all_data_def Let_def try_graphql_frame sweep_results_config
      sweep_frame)

lemma structure_data_frame:
  assumes "structure_data x = Inr (s, x2)"
  shows "results_config (results x2) = results_config (results x)" and "config x2 = config x"
  using assms
  by (auto simp: structure_data_def Let_def split: sum.splits if_splits)

text \<open>
  When \<^verbatim>\<open>structure_data\<close> returns, the raw file is written first, and it holds the results
  with the whole configuration, bearer token included.
\<close>

lemma raw_file_written_unless_fault:
  assumes "structure_data (extract_all_data w (extractor_init utcnow)) = Inr (s, x2)"
  shows "\<exists>rest. files (main w utcnow now) =
           (''execution_88715_raw_'' @ now @ ''.json'', RawDump (results x2)) # rest"
    and "results_config (results x2) = default_config"
    and "token (results_config (results x2)) = ''9e141010-eca5-43f5-afb9-20dc6c49833f''"
proof -
  have c: "config x2 = default_config" "results_config (results x2) = default_config"
    using structure_data_frame [OF assms] extract_all_data_frame [of w "extractor_init utcnow"]
    by (simp_all add: extractor_init_def)
  have n: "str_int (execution_id default_config) = ''88715''"
    by (simp add: default_config_def str_int_def str_nat.simps)
  show "\<exists>rest. files (main w utcnow now) =
           (''execution_88715_raw_'' @ now @ ''.json'', RawDump (results x2)) # rest"
    by (simp add: main_def Let_def assms save_results_def c n split: option.splits)
  show "results_config (results x2) = default_config" by (rule c)
  then show "token (results_config (results x2)) = ''9e141010-eca5-43f5-afb9-20dc6c49833f''"
    by (simp add: default_config_def)
qed

end
